theory Spec2Isabelle
  imports Main "HOL-Library.Product_Lexorder" "HOL-Library.AList" "HOL-Library.Multiset"
begin

section \<open>Position (src/src/refactorings/position.ts)\<close>

text \<open>
  A Position is a pair of a line and a character index. The specification fixes both as
  unsigned integers, so they are natural numbers here.
\<close>

record Position =
  line :: nat
  character :: nat

definition isSameLineThan :: "Position \<Rightarrow> Position \<Rightarrow> bool" where
  "isSameLineThan this p = (line this = line p)"

definition isEqualTo :: "Position \<Rightarrow> Position \<Rightarrow> bool" where
  "isEqualTo this p = (isSameLineThan this p \<and> character this = character p)"

definition isBefore :: "Position \<Rightarrow> Position \<Rightarrow> bool" where
  "isBefore this p =
     (isEqualTo this p \<or> line this < line p \<or>
      (isSameLineThan this p \<and> character this < character p))"

definition isAfter :: "Position \<Rightarrow> Position \<Rightarrow> bool" where
  "isAfter this p = (isEqualTo this p \<or> \<not> isBefore this p)"

definition putAtStartOfLine :: "Position \<Rightarrow> Position" where
  "putAtStartOfLine this = \<lparr>line = line this, character = 0\<rparr>"

definition putAtNextLine :: "Position \<Rightarrow> Position" where
  "putAtNextLine this = \<lparr>line = line this + 1, character = character this\<rparr>"

section \<open>Selection and Modification\<close>

text \<open>
  Modelled from the spec: the Selection class (\<^verbatim>\<open>../selection\<close>) is not among the sources.
  The specification gives it as an ordered pair of Positions, a cursor being the degenerate
  selection whose start and end coincide; \<^verbatim>\<open>Selection.cursorAtPosition\<close> and
  \<^verbatim>\<open>Selection.cursorAt\<close> build that one. The field \<^verbatim>\<open>end\<close> is written \<open>endp\<close>.
\<close>

record Selection =
  start :: Position
  endp :: Position

definition cursorAtPosition :: "Position \<Rightarrow> Selection" where
  "cursorAtPosition p = \<lparr>start = p, endp = p\<rparr>"

definition cursorAt :: "nat \<Rightarrow> nat \<Rightarrow> Selection" where
  "cursorAt l c = cursorAtPosition \<lparr>line = l, character = c\<rparr>"

text \<open>
  Modelled from the spec: \<^verbatim>\<open>Selection.startsBefore\<close> is not among the sources. The commit
  algorithm sorts ``by descending start position'' with it, so it compares the two start
  positions with the one ordering Position offers.
\<close>

definition startsBefore :: "Selection \<Rightarrow> Selection \<Rightarrow> bool" where
  "startsBefore this s = isBefore (start this) (start s)"

record Modification =
  modCode :: string
  modSelection :: Selection

section \<open>The in-memory editor (src/unnamed/part_001)\<close>

type_synonym Char = string
type_synonym Line = "Char list"
type_synonym CodeMatrix = "Line list"
type_synonym RelativePath = string

definition LINE_SEPARATOR :: string where
  "LINE_SEPARATOR = [CHR 0x0A]"

definition DELETED_LINE :: string where
  "DELETED_LINE = ''___DELETED_LINE___''"

definition CURSOR :: string where
  "CURSOR = ''[cursor]''"

definition SELECTION_START :: string where
  "SELECTION_START = ''[start]''"

definition SELECTION_END :: string where
  "SELECTION_END = ''[end]''"

datatype error = TypeError

datatype editor =
  InMemoryEditor (codeMatrix: CodeMatrix) (selection: Selection)
                 (otherFiles: "(RelativePath \<times> editor) list")

definition withCodeMatrix :: "CodeMatrix \<Rightarrow> editor \<Rightarrow> editor" where
  "withCodeMatrix cm e = InMemoryEditor cm (selection e) (otherFiles e)"

definition withSelection :: "Selection \<Rightarrow> editor \<Rightarrow> editor" where
  "withSelection s e = InMemoryEditor (codeMatrix e) s (otherFiles e)"

definition withOtherFiles :: "(RelativePath \<times> editor) list \<Rightarrow> editor \<Rightarrow> editor" where
  "withOtherFiles fs e = InMemoryEditor (codeMatrix e) (selection e) fs"

subsection \<open>JavaScript string and array primitives\<close>

text \<open>\<^verbatim>\<open>Array.prototype.join\<close> on an array of strings.\<close>

fun join :: "string \<Rightarrow> string list \<Rightarrow> string" where
  "join sep [] = []"
| "join sep [x] = x"
| "join sep (x # y # ys) = x @ sep @ join sep (y # ys)"

text \<open>\<^verbatim>\<open>code.split("\n")\<close>: the pieces between line feeds, at least one piece.\<close>

fun splitLines :: "string \<Rightarrow> string list" where
  "splitLines [] = [[]]"
| "splitLines (c # cs) =
     (if c = CHR 0x0A then [] # splitLines cs
      else (case splitLines cs of [] \<Rightarrow> [[c]] | l # ls \<Rightarrow> (c # l) # ls))"

text \<open>\<^verbatim>\<open>line.split("")\<close>: one single-character string per character.\<close>

definition splitChars :: "string \<Rightarrow> Line" where
  "splitChars l = map (\<lambda>c. [c]) l"

fun startsWith :: "string \<Rightarrow> string \<Rightarrow> bool" where
  "startsWith [] hay = True"
| "startsWith (n # ns) [] = False"
| "startsWith (n # ns) (h # hs) = (n = h \<and> startsWith ns hs)"

text \<open>
  \<^verbatim>\<open>hay.indexOf(needle)\<close>; JavaScript's \<open>-1\<close> is \<open>None\<close>.
\<close>

fun indexOf :: "string \<Rightarrow> string \<Rightarrow> nat option" where
  "indexOf needle [] = (if needle = [] then Some 0 else None)"
| "indexOf needle (h # hs) =
     (if startsWith needle (h # hs) then Some 0 else map_option Suc (indexOf needle hs))"

text \<open>\<^verbatim>\<open>hay.replace(needle, "")\<close>: the first occurrence of the needle is removed.\<close>

definition removeFirst :: "string \<Rightarrow> string \<Rightarrow> string" where
  "removeFirst needle hay =
     (case indexOf needle hay of
        None \<Rightarrow> hay
      | Some i \<Rightarrow> take i hay @ drop (i + length needle) hay)"

text \<open>
  \<^verbatim>\<open>xs.slice(a, b)\<close> and \<^verbatim>\<open>xs.slice(a)\<close> for non-negative indices: both ends are
  clipped to the length and an empty array results when \<open>b \<le> a\<close>.
\<close>

definition slice :: "'a list \<Rightarrow> nat \<Rightarrow> nat \<Rightarrow> 'a list" where
  "slice xs a b = take (b - a) (drop a xs)"

definition sliceFrom :: "'a list \<Rightarrow> nat \<Rightarrow> 'a list" where
  "sliceFrom xs a = drop a xs"

text \<open>
  \<^verbatim>\<open>xs.splice(st, dc, item)\<close> for a non-negative start: the start is clipped to the
  length, \<open>dc\<close> elements are removed from there (a negative count counts as zero, which
  is what the truncating subtraction of the callers yields) and the one item is put in
  their place.
\<close>

definition splice :: "'a list \<Rightarrow> nat \<Rightarrow> nat \<Rightarrow> 'a \<Rightarrow> 'a list" where
  "splice xs st dc item = take st xs @ [item] @ drop (st + dc) xs"

text \<open>
  \<^verbatim>\<open>xs.sort(cmp)\<close> as insertion of each element, from left to right, into the sorted
  prefix: an element goes before the first one it compares strictly less than. For a
  comparator that is a consistent order every implementation returns this list.
\<close>

fun insertBy :: "('a \<Rightarrow> 'a \<Rightarrow> int) \<Rightarrow> 'a \<Rightarrow> 'a list \<Rightarrow> 'a list" where
  "insertBy cmp x [] = [x]"
| "insertBy cmp x (y # ys) = (if cmp x y < 0 then x # y # ys else y # insertBy cmp x ys)"

definition sortBy :: "('a \<Rightarrow> 'a \<Rightarrow> int) \<Rightarrow> 'a list \<Rightarrow> 'a list" where
  "sortBy cmp xs = foldl (\<lambda>acc x. insertBy cmp x acc) [] xs"

subsection \<open>Reading\<close>

definition read :: "CodeMatrix \<Rightarrow> string" where
  "read cm = join LINE_SEPARATOR (filter (\<lambda>l. l \<noteq> DELETED_LINE) (map concat cm))"

definition code :: "editor \<Rightarrow> string" where
  "code e = read (codeMatrix e)"

definition codeOf :: "editor \<Rightarrow> RelativePath \<Rightarrow> string" where
  "codeOf e path =
     (case map_of (otherFiles e) path of
        None \<Rightarrow> []
      | Some otherFile \<Rightarrow> code otherFile)"

subsection \<open>Construction and the marker protocol\<close>

definition setCodeMatrix :: "string \<Rightarrow> CodeMatrix" where
  "setCodeMatrix c =
     map (\<lambda>l. splitChars
            (removeFirst SELECTION_END (removeFirst SELECTION_START (removeFirst CURSOR l))))
         (splitLines c)"

text \<open>
  One round of the reduction in \<^verbatim>\<open>setSelectionFromCursor\<close>; the state is the selection so
  far and \<^verbatim>\<open>lineIndex\<close>. \<^verbatim>\<open>Selection.extendEndToStartOf\<close> is not among the sources and
  is the parameter \<open>ext\<close>.
\<close>

definition scanLine ::
  "(Selection \<Rightarrow> Selection \<Rightarrow> Selection) \<Rightarrow> string \<Rightarrow> Selection \<times> nat \<Rightarrow> Selection \<times> nat" where
  "scanLine ext l st =
     (let sel0 = fst st; lineIndex = snd st;
          sel1 = (case indexOf CURSOR l of
                    Some cursorChar \<Rightarrow> cursorAt lineIndex cursorChar
                  | None \<Rightarrow> sel0);
          l1 = removeFirst CURSOR l;
          sel2 = (case indexOf SELECTION_START l1 of
                    Some startChar \<Rightarrow> cursorAt lineIndex startChar
                  | None \<Rightarrow> sel1);
          l2 = removeFirst SELECTION_START l1;
          sel3 = (case indexOf SELECTION_END l2 of
                    Some endChar \<Rightarrow> ext sel2 (cursorAt lineIndex endChar)
                  | None \<Rightarrow> sel2)
      in (sel3, lineIndex + 1))"

definition setSelectionFromCursor ::
  "(Selection \<Rightarrow> Selection \<Rightarrow> Selection) \<Rightarrow> string \<Rightarrow> Selection \<Rightarrow> Selection" where
  "setSelectionFromCursor ext c defaultSelection =
     fst (fold (scanLine ext) (splitLines c) (defaultSelection, 0))"

definition newInMemoryEditor ::
  "(Selection \<Rightarrow> Selection \<Rightarrow> Selection) \<Rightarrow> string \<Rightarrow> Position \<Rightarrow> editor" where
  "newInMemoryEditor ext c p =
     InMemoryEditor (setCodeMatrix c) (setSelectionFromCursor ext c (cursorAtPosition p)) []"

subsection \<open>Writing\<close>

text \<open>\<^verbatim>\<open>write\<close> (the name is a keyword of Isabelle, hence \<open>writeCode\<close>).\<close>

definition writeCode :: "editor \<Rightarrow> string \<Rightarrow> Position option \<Rightarrow> editor" where
  "writeCode e c newCursorPosition =
     (let e1 = withCodeMatrix (setCodeMatrix c) e in
      case newCursorPosition of
        Some p \<Rightarrow> withSelection (cursorAtPosition p) e1
      | None \<Rightarrow> e1)"

text \<open>
  \<^verbatim>\<open>Map.prototype.set\<close> keeps the place of a key that is already there and appends a new
  one, as \<open>AList.update\<close> does on an association list.
\<close>

definition writeIn ::
  "(Selection \<Rightarrow> Selection \<Rightarrow> Selection) \<Rightarrow> editor \<Rightarrow> RelativePath \<Rightarrow> string \<Rightarrow> editor" where
  "writeIn ext e path c =
     withOtherFiles
       (AList.update path (newInMemoryEditor ext c \<lparr>line = 0, character = 0\<rparr>) (otherFiles e)) e"

definition moveCursorTo :: "editor \<Rightarrow> Position \<Rightarrow> editor" where
  "moveCursorTo e p = withSelection (cursorAtPosition p) e"

text \<open>
  The first half of \<^verbatim>\<open>readThenWrite\<close>: the text handed to \<^verbatim>\<open>getModifications\<close>. Indexing
  the matrix past its last line yields \<^verbatim>\<open>undefined\<close>, and calling \<^verbatim>\<open>slice\<close> on that throws
  a TypeError.
\<close>

definition readSelection :: "CodeMatrix \<Rightarrow> Selection \<Rightarrow> error + string" where
  "readSelection cm sel =
     (let s = start sel; e = endp sel in
      if line s = line e then
        (if line s < length cm
         then Inr (read [slice (cm ! line s) (character s) (character e)])
         else Inl TypeError)
      else if line e > line s then
        (if line s < length cm then
           (if line e < length cm
            then Inr (read ([sliceFrom (cm ! line s) (character s)]
                            @ map (\<lambda>i. cm ! i) [line s + 1 ..< line e]
                            @ [slice (cm ! line e) 0 (character e)]))
            else Inl TypeError)
         else Inl TypeError)
      else Inr (read []))"

text \<open>
  The body of the \<^verbatim>\<open>forEach\<close>: one Modification applied to the matrix. A throw leaves the
  matrix as it is at that moment; it is returned next to the error.
\<close>

definition applyModification ::
  "CodeMatrix \<Rightarrow> Modification \<Rightarrow> (error \<times> CodeMatrix) + CodeMatrix" where
  "applyModification cm m =
     (let s = start (modSelection m); e = endp (modSelection m) in
      if line s = line e then
        (if line s < length cm
         then Inr (cm[line s := splice (cm ! line s) (character s)
                                        (character e - character s) (modCode m)])
         else Inl (TypeError, cm))
      else if line e > line s then
        (if line s < length cm then
           (let cm1 = cm[line s := splice (cm ! line s) (character s)
                                          (length (cm ! line s) - character s) (modCode m)]
            in if line e < length cm1 then
                 (let cm2 = cm1[line s := cm1 ! line s @ sliceFrom (cm1 ! line e) (character e)]
                  in Inr (fold (\<lambda>i c. c[i := [DELETED_LINE]]) [line s + 1 ..< line e + 1] cm2))
               else Inl (TypeError, cm1))
         else Inl (TypeError, cm))
      else Inr cm)"

fun commit :: "CodeMatrix \<Rightarrow> Modification list \<Rightarrow> (error \<times> CodeMatrix) + CodeMatrix" where
  "commit cm [] = Inr cm"
| "commit cm (m # ms) =
     (case applyModification cm m of
        Inl err \<Rightarrow> Inl err
      | Inr cm' \<Rightarrow> commit cm' ms)"

definition compareModifications :: "Modification \<Rightarrow> Modification \<Rightarrow> int" where
  "compareModifications a b = (if startsBefore (modSelection a) (modSelection b) then 1 else - 1)"

text \<open>
  \<^verbatim>\<open>readThenWrite\<close>. The result is the editor afterwards, on the right when the call
  returns and on the left, with the error, when it throws.
\<close>

definition readThenWrite ::
  "editor \<Rightarrow> Selection \<Rightarrow> (string \<Rightarrow> Modification list) \<Rightarrow> Position option
   \<Rightarrow> (error \<times> editor) + editor" where
  "readThenWrite e sel getModifications newCursorPosition =
     (let e1 = (case newCursorPosition of
                  Some p \<Rightarrow> withSelection (cursorAtPosition p) e
                | None \<Rightarrow> e)
      in case readSelection (codeMatrix e1) sel of
           Inl err \<Rightarrow> Inl (err, e1)
         | Inr text \<Rightarrow>
             (case commit (codeMatrix e1) (sortBy compareModifications (getModifications text)) of
                Inl (err, cm) \<Rightarrow> Inl (err, withCodeMatrix cm e1)
              | Inr cm \<Rightarrow> Inr (withCodeMatrix cm e1)))"

text \<open>The editor a call leaves behind, whether it returned or threw.\<close>

definition editorAfter :: "(error \<times> editor) + editor \<Rightarrow> editor" where
  "editorAfter r = (case r of Inl (err, e) \<Rightarrow> e | Inr e \<Rightarrow> e)"

subsection \<open>What the marker scan computes\<close>

text \<open>
  Modelled from the spec: \<^verbatim>\<open>Selection.extendEndToStartOf\<close> is not among the sources. The
  specification says that the end marker extends the selection and that extension never
  breaks start \<open>\<le>\<close> end: the end moves to the start of the other selection when that is
  not before the current end, and the selection is returned as it is otherwise. The model
  of the editor takes the function as a parameter; this one instantiates it in examples.
\<close>

definition extendEndToStartOf :: "Selection \<Rightarrow> Selection \<Rightarrow> Selection" where
  "extendEndToStartOf this s =
     (if isAfter (start s) (endp this) then \<lparr>start = start this, endp = start s\<rparr> else this)"

text \<open>
  The selection a line sets by itself, if any: a cursor at its start marker, searched after
  the cursor marker is removed, or else at its cursor marker; and the column of its end
  marker, searched after both other markers are removed.
\<close>

definition markerSelection :: "nat \<Rightarrow> string \<Rightarrow> Selection option" where
  "markerSelection lineIndex l =
     (case indexOf SELECTION_START (removeFirst CURSOR l) of
        Some startChar \<Rightarrow> Some (cursorAt lineIndex startChar)
      | None \<Rightarrow> map_option (cursorAt lineIndex) (indexOf CURSOR l))"

definition endMarker :: "string \<Rightarrow> nat option" where
  "endMarker l = indexOf SELECTION_END (removeFirst SELECTION_START (removeFirst CURSOR l))"

fun endMarkers :: "nat \<Rightarrow> string list \<Rightarrow> Selection list" where
  "endMarkers lineIndex [] = []"
| "endMarkers lineIndex (l # ls) =
     (case endMarker l of
        Some endChar \<Rightarrow> cursorAt lineIndex endChar # endMarkers (lineIndex + 1) ls
      | None \<Rightarrow> endMarkers (lineIndex + 1) ls)"

subsection \<open>Splicing into the text, in the words of the specification\<close>

















subsection \<open>Example edits\<close>

text \<open>
  A buffer of three lines with a single-line and a multi-line replacement, returned in
  document order; a buffer on which a replacement writes the text of the sentinel; and two
  Modifications with the same start.
\<close>

definition exampleEditor :: editor where
  "exampleEditor = newInMemoryEditor extendEndToStartOf ''abc\<newline>def\<newline>ghi'' \<lparr>line = 0, character = 0\<rparr>"




definition sameStartEdits :: "string \<Rightarrow> Modification list" where
  "sameStartEdits readCode =
     [\<lparr>modCode = ''I'', modSelection = \<lparr>start = \<lparr>line = 0, character = 1\<rparr>,
                                        endp = \<lparr>line = 0, character = 1\<rparr>\<rparr>\<rparr>,
      \<lparr>modCode = ''X'', modSelection = \<lparr>start = \<lparr>line = 0, character = 1\<rparr>,
                                        endp = \<lparr>line = 0, character = 2\<rparr>\<rparr>\<rparr>]"

subsection \<open>Sequences of calls\<close>

text \<open>
  The calls of the Editor interface that change an in-memory editor, and a run of them on
  one editor object. A \<^verbatim>\<open>readThenWrite\<close> that throws leaves the object as it is then.
\<close>

datatype op =
    Write string "Position option"
  | WriteIn RelativePath string
  | ReadThenWrite Selection "string \<Rightarrow> Modification list" "Position option"
  | MoveCursorTo Position

fun applyOp :: "(Selection \<Rightarrow> Selection \<Rightarrow> Selection) \<Rightarrow> op \<Rightarrow> editor \<Rightarrow> editor" where
  "applyOp ext (Write c cur) e = writeCode e c cur"
| "applyOp ext (WriteIn path c) e = writeIn ext e path c"
| "applyOp ext (ReadThenWrite sel g cur) e = editorAfter (readThenWrite e sel g cur)"
| "applyOp ext (MoveCursorTo p) e = moveCursorTo e p"

fun writesIn :: "RelativePath \<Rightarrow> op \<Rightarrow> bool" where
  "writesIn path (WriteIn p c) = (p = path)"
| "writesIn path _ = False"

section \<open>Discovery of applicable refactorings (src/unnamed/part_000)\<close>

text \<open>
  A visitor is a JavaScript object: its own keys, in the order \<^verbatim>\<open>Object.keys\<close> lists them,
  each with its value. A value is a function, an object with members of its own, or
  something else, falsy (\<^verbatim>\<open>undefined\<close>, \<^verbatim>\<open>null\<close>) or truthy. A callback receives the path
  it is invoked on; what it does to the discovery is to call the completion callback it was
  built with, so it is modelled by what it returns: the paths it hands to the completion
  callback, in order, or the error it throws.
\<close>

datatype ('p, 'e) visitorNode =
    Fn "'p \<Rightarrow> 'e + 'p list"
  | Obj "(string \<times> ('p, 'e) visitorNode) list"
  | Falsy
  | Truthy

type_synonym ('p, 'e) Visitor = "(string \<times> ('p, 'e) visitorNode) list"

text \<open>\<^verbatim>\<open>visitor[key]\<close>: a key that is not there reads as \<^verbatim>\<open>undefined\<close>.\<close>

definition getProp :: "('p, 'e) Visitor \<Rightarrow> string \<Rightarrow> ('p, 'e) visitorNode" where
  "getProp visitor k = (case map_of visitor k of Some v \<Rightarrow> v | None \<Rightarrow> Falsy)"

text \<open>
  \<^verbatim>\<open>getVisitorNode\<close>. \<^verbatim>\<open>t.isType\<close> is not among the sources and is the parameter \<open>isType\<close>;
  \<^verbatim>\<open>null\<close> is \<open>Falsy\<close>. The empty string is the one falsy key \<^verbatim>\<open>find\<close> can return.
\<close>

definition getVisitorNode ::
  "(string \<Rightarrow> string \<Rightarrow> bool) \<Rightarrow> ('p, 'e) Visitor \<Rightarrow> string \<Rightarrow> ('p, 'e) visitorNode" where
  "getVisitorNode isType visitor nodeType =
     (if getProp visitor nodeType \<noteq> Falsy then getProp visitor nodeType
      else (case find (\<lambda>type. isType nodeType type) (map fst visitor) of
              Some matchingType \<Rightarrow> (if matchingType \<noteq> [] then getProp visitor matchingType else Falsy)
            | None \<Rightarrow> Falsy))"

text \<open>The loop over \<^verbatim>\<open>Object.values(visitorNode)\<close>: every member that is a function is called.\<close>

fun callMethods :: "('p, 'e) visitorNode list \<Rightarrow> 'p \<Rightarrow> 'e + 'p list" where
  "callMethods [] path = Inr []"
| "callMethods (Fn f # vs) path =
     (case f path of
        Inl err \<Rightarrow> Inl err
      | Inr t \<Rightarrow> (case callMethods vs path of Inl err \<Rightarrow> Inl err | Inr t' \<Rightarrow> Inr (t @ t')))"
| "callMethods (v # vs) path = callMethods vs path"

definition visitEnter :: "('p, 'e) Visitor \<Rightarrow> 'p \<Rightarrow> 'e + 'p list" where
  "visitEnter visitor path = (case getProp visitor ''enter'' of Fn f \<Rightarrow> f path | _ \<Rightarrow> Inr [])"

definition visit ::
  "(string \<Rightarrow> string \<Rightarrow> bool) \<Rightarrow> ('p \<Rightarrow> string) \<Rightarrow> ('p, 'e) Visitor \<Rightarrow> 'p \<Rightarrow> 'e + 'p list" where
  "visit isType nodeTypeOf visitor path =
     (case visitEnter visitor path of
        Inl err \<Rightarrow> Inl err
      | Inr t \<Rightarrow>
          (case getVisitorNode isType visitor (nodeTypeOf path) of
             Fn f \<Rightarrow> (case f path of Inl err \<Rightarrow> Inl err | Inr t' \<Rightarrow> Inr (t @ t'))
           | Obj members \<Rightarrow>
               (case callMethods (map snd members) path of
                  Inl err \<Rightarrow> Inl err
                | Inr t' \<Rightarrow> Inr (t @ t'))
           | _ \<Rightarrow> Inr t))"

text \<open>
  What invoking a visitor node does, in the words of the specification: a function is the
  enter shorthand and is called on the path; of an object every function-valued member is
  called in turn; anything else invokes nothing. And the whole of a dispatch on a node: the
  call of the generic enter function of the visitor, then the invocation of a visitor node.
\<close>

definition invokeNode :: "('p, 'e) visitorNode \<Rightarrow> 'p \<Rightarrow> 'e + 'p list" where
  "invokeNode node path =
     (case node of
        Fn f \<Rightarrow> f path
      | Obj members \<Rightarrow> callMethods (map snd members) path
      | Falsy \<Rightarrow> Inr []
      | Truthy \<Rightarrow> Inr [])"

definition enterThen :: "('p, 'e) Visitor \<Rightarrow> 'p \<Rightarrow> ('p, 'e) visitorNode \<Rightarrow> 'e + 'p list" where
  "enterThen visitor path node =
     (case visitEnter visitor path of
        Inl err \<Rightarrow> Inl err
      | Inr t \<Rightarrow> (case invokeNode node path of Inl err \<Rightarrow> Inl err | Inr t' \<Rightarrow> Inr (t @ t')))"

text \<open>
  A refactoring with its action provider. \<^verbatim>\<open>createVisitor\<close> receives the selection, the
  completion callback and a type checker made from the code; the visitor it returns is
  given as a function of the selection and the code.
\<close>

record ('p, 'e) Refactoring =
  key :: string
  title :: string
  message :: string
  isPreferred :: bool
  updateMessage :: "('p \<Rightarrow> string) option"
  createVisitor :: "Selection \<Rightarrow> string \<Rightarrow> ('p, 'e) Visitor"

text \<open>
  What the code takes from its surroundings: the parser and the traversal of \<^verbatim>\<open>./ast\<close>
  (the paths on which \<^verbatim>\<open>enter\<close> is called, in order), the configuration, the workspace and
  the active editor of the host.
\<close>

record ('ast, 'p, 'e) host =
  parse :: "string \<Rightarrow> 'e + 'ast"
  traverseAST :: "'ast \<Rightarrow> 'p list"
  nodeTypeOf :: "'p \<Rightarrow> string"
  isType :: "string \<Rightarrow> string \<Rightarrow> bool"
  shouldShowInQuickFix :: "string \<Rightarrow> bool"
  getIgnoredFolders :: "string list"
  getIgnoredPatterns :: "string list"
  getMaxFileLinesCount :: nat
  minimatch :: "string \<Rightarrow> string \<Rightarrow> bool"
  asRelativePath :: "string \<Rightarrow> string"
  readFile :: "string \<Rightarrow> 'e + string"
  createVSCodeEditor :: "(string \<times> Selection) option"

text \<open>The completion callback handed to \<^verbatim>\<open>createVisitor\<close>, on the map of applicable refactorings.\<close>

definition onMatch ::
  "('p, 'e) Refactoring \<Rightarrow> 'p \<Rightarrow> (string \<times> ('p, 'e) Refactoring) list
   \<Rightarrow> (string \<times> ('p, 'e) Refactoring) list" where
  "onMatch refactoring visitedPath applicableRefactorings =
     AList.update (key refactoring)
       (case updateMessage refactoring of
          Some f \<Rightarrow> refactoring\<lparr>message := f visitedPath\<rparr>
        | None \<Rightarrow> refactoring)
       applicableRefactorings"

text \<open>\<^verbatim>\<open>forEach\<close> with a body that may throw.\<close>

fun forEach :: "('a \<Rightarrow> 's \<Rightarrow> 'e + 's) \<Rightarrow> 'a list \<Rightarrow> 's \<Rightarrow> 'e + 's" where
  "forEach f [] s = Inr s"
| "forEach f (x # xs) s = (case f x s of Inl err \<Rightarrow> Inl err | Inr s' \<Rightarrow> forEach f xs s')"

definition checkRefactoring ::
  "('ast, 'p, 'e) host \<Rightarrow> Selection \<Rightarrow> string \<Rightarrow> 'p \<Rightarrow> ('p, 'e) Refactoring
   \<Rightarrow> (string \<times> ('p, 'e) Refactoring) list \<Rightarrow> 'e + (string \<times> ('p, 'e) Refactoring) list" where
  "checkRefactoring h sel c path refactoring applicableRefactorings =
     (case visit (isType h) (nodeTypeOf h) (createVisitor refactoring sel c) path of
        Inl err \<Rightarrow> Inl err
      | Inr visitedPaths \<Rightarrow> Inr (fold (onMatch refactoring) visitedPaths applicableRefactorings))"

definition findApplicableRefactorings ::
  "('ast, 'p, 'e) host \<Rightarrow> ('p, 'e) Refactoring list \<Rightarrow> string \<times> Selection
   \<Rightarrow> 'e + ('p, 'e) Refactoring list" where
  "findApplicableRefactorings h refactorings ed =
     (let c = fst ed; sel = snd ed;
          refactoringsToCheck = filter (\<lambda>r. shouldShowInQuickFix h (key r)) refactorings
      in case parse h c of
           Inl err \<Rightarrow> Inl err
         | Inr ast \<Rightarrow>
             (case forEach (\<lambda>path. forEach (checkRefactoring h sel c path) refactoringsToCheck)
                     (traverseAST h ast) [] of
                Inl err \<Rightarrow> Inl err
              | Inr applicableRefactorings \<Rightarrow> Inr (map snd applicableRefactorings)))"






subsection \<open>The claims of a traversal, in the words of the specification\<close>

text \<open>
  The refactorings claimed during a traversal, in the order of the claims: node after
  node, candidate after candidate, one entry for every call of the completion callback.
\<close>

definition claimsAt ::
  "('ast, 'p, 'e) host \<Rightarrow> Selection \<Rightarrow> string \<Rightarrow> ('p, 'e) Refactoring list \<Rightarrow> 'p
   \<Rightarrow> (('p, 'e) Refactoring \<times> 'p) list" where
  "claimsAt h sel c rs path =
     concat (map (\<lambda>r. case visit (isType h) (nodeTypeOf h) (createVisitor r sel c) path of
                          Inl err \<Rightarrow> []
                        | Inr visitedPaths \<Rightarrow> map (\<lambda>visitedPath. (r, visitedPath)) visitedPaths) rs)"

definition claims ::
  "('ast, 'p, 'e) host \<Rightarrow> Selection \<Rightarrow> string \<Rightarrow> ('p, 'e) Refactoring list \<Rightarrow> 'p list
   \<Rightarrow> (('p, 'e) Refactoring \<times> 'p) list" where
  "claims h sel c rs paths = concat (map (claimsAt h sel c rs) paths)"

text \<open>A list without its repetitions: every element once, at the place of its first occurrence.\<close>

fun dedupFrom :: "'a list \<Rightarrow> 'a list \<Rightarrow> 'a list" where
  "dedupFrom seen [] = []"
| "dedupFrom seen (x # xs) =
     (if x \<in> set seen then dedupFrom seen xs else x # dedupFrom (x # seen) xs)"

definition firstOccurrences :: "'a list \<Rightarrow> 'a list" where
  "firstOccurrences xs = dedupFrom [] xs"

text \<open>The descriptor the completion callback records for a claim.\<close>

definition recorded :: "('p, 'e) Refactoring \<Rightarrow> 'p \<Rightarrow> ('p, 'e) Refactoring" where
  "recorded r visitedPath =
     (case updateMessage r of Some f \<Rightarrow> r\<lparr>message := f visitedPath\<rparr> | None \<Rightarrow> r)"

subsection \<open>An example host with two refactorings\<close>

text \<open>
  A host whose parser rejects the text "(" and returns a tree of three nodes otherwise, a
  program and two arrow functions, and two refactorings: one claims every function, the
  other the program.
\<close>

definition exampleHost :: "(nat list, nat, string) host" where
  "exampleHost =
     \<lparr>parse = (\<lambda>c. if c = ''('' then Inl ''SyntaxError'' else Inr [0, 1, 2]),
      traverseAST = (\<lambda>ast. ast),
      nodeTypeOf = (\<lambda>p. if p = 0 then ''Program'' else ''ArrowFunctionExpression''),
      isType = (\<lambda>t k. t = k \<or> (t = ''ArrowFunctionExpression'' \<and> k = ''Function'')),
      shouldShowInQuickFix = (\<lambda>k. True),
      getIgnoredFolders = [''node_modules''],
      getIgnoredPatterns = [],
      getMaxFileLinesCount = 10000,
      minimatch = (\<lambda>p q. False),
      asRelativePath = (\<lambda>p. p),
      readFile = (\<lambda>p. Inr ''x''),
      createVSCodeEditor = Some (''('', cursorAt 0 0)\<rparr>"

definition exampleAddBraces :: "(nat, string) Refactoring" where
  "exampleAddBraces =
     \<lparr>key = ''addBraces'', title = ''Add braces'', message = ''Add braces'',
      isPreferred = False, updateMessage = None,
      createVisitor = (\<lambda>sel c. [(''Function'', Fn (\<lambda>p. Inr [p]))])\<rparr>"

definition exampleRename :: "(nat, string) Refactoring" where
  "exampleRename =
     \<lparr>key = ''rename'', title = ''Rename'', message = ''Rename'',
      isPreferred = False, updateMessage = None,
      createVisitor = (\<lambda>sel c. [(''Program'', Fn (\<lambda>p. Inr [p]))])\<rparr>"


text \<open>``Exactly one of three'' as a formula on booleans.\<close>

definition exactlyOne :: "bool \<Rightarrow> bool \<Rightarrow> bool \<Rightarrow> bool" where
  "exactlyOne a b c = ((a \<and> \<not> b \<and> \<not> c) \<or> (\<not> a \<and> b \<and> \<not> c) \<or> (\<not> a \<and> \<not> b \<and> c))"

section \<open>Position ordering\<close>

lemma isEqualTo_iff: "isEqualTo a b \<longleftrightarrow> a = b"
  by (cases a, cases b) (simp add: isEqualTo_def isSameLineThan_def)

lemma isBefore_iff:
  "isBefore a b \<longleftrightarrow> (line a, character a) \<le> (line b, character b)"
  by (auto simp: isBefore_def isEqualTo_def isSameLineThan_def less_eq_prod_def)

text \<open>
  C1 (as stated): for all positions a and b exactly one of a.isBefore(b), a.isEqualTo(b),
  b.isBefore(a) holds. This fails: isBefore is reflexive (its first disjunct is isEqualTo),
  so for a = b all three hold at once.
\<close>

theorem C1_trichotomy_counterexample:
  "\<not> exactlyOne
       (isBefore \<lparr>line = 0, character = 0\<rparr> \<lparr>line = 0, character = 0\<rparr>)
       (isEqualTo \<lparr>line = 0, character = 0\<rparr> \<lparr>line = 0, character = 0\<rparr>)
       (isBefore \<lparr>line = 0, character = 0\<rparr> \<lparr>line = 0, character = 0\<rparr>)"
  by (simp add: exactlyOne_def isBefore_def isEqualTo_def isSameLineThan_def)

text \<open>
  C1 (amended): isBefore is the non-strict order. For all positions a and b at least one
  of a.isBefore(b), b.isBefore(a) holds, both hold exactly when a.isEqualTo(b), and
  a.isEqualTo(b) holds exactly when the two positions have the same line and character.
  Hence exactly one of ``a before b and not equal'', ``a equal to b'', ``b before a and not
  equal'' holds.
\<close>

theorem C1_isBefore_total_order:
  "(isBefore a b \<or> isBefore b a) \<and>
   ((isBefore a b \<and> isBefore b a) = isEqualTo a b) \<and>
   (isEqualTo a b = (a = b)) \<and>
   exactlyOne (isBefore a b \<and> \<not> isEqualTo a b) (isEqualTo a b)
              (isBefore b a \<and> \<not> isEqualTo b a)"
proof -
  have eq: "isEqualTo a b = (a = b)" "isEqualTo b a = (a = b)"
    by (auto simp: isEqualTo_iff)
  have le: "isBefore a b = ((line a, character a) \<le> (line b, character b))"
       "isBefore b a = ((line b, character b) \<le> (line a, character a))"
    by (simp_all only: isBefore_iff)
  have key: "(a = b) = ((line a, character a) = (line b, character b))"
    by (cases a, cases b) simp
  show ?thesis
    unfolding exactlyOne_def eq le key by (auto simp: less_eq_prod_def)
qed

theorem C1_isBefore_total_order_witness:
  "isBefore \<lparr>line = 1, character = 5\<rparr> \<lparr>line = 2, character = 0\<rparr> \<and>
   \<not> isBefore \<lparr>line = 2, character = 0\<rparr> \<lparr>line = 1, character = 5\<rparr> \<and>
   \<not> isEqualTo \<lparr>line = 1, character = 5\<rparr> \<lparr>line = 2, character = 0\<rparr>"
  using C1_isBefore_total_order [of "\<lparr>line = 1, character = 5\<rparr>" "\<lparr>line = 2, character = 0\<rparr>"]
  by (simp add: exactlyOne_def isBefore_def isEqualTo_def isSameLineThan_def)

lemma setCodeMatrix_abc:
  "setCodeMatrix ''abc\<newline>def\<newline>ghi'' = [[''a'', ''b'', ''c''], [''d'', ''e'', ''f''], [''g'', ''h'', ''i'']]"
  by code_simp

section \<open>The mutation engine on examples and at its edges\<close>

text \<open>
  C3: on the buffer with lines "abc", "def", "ghi", readThenWrite with the single
  Modification that replaces (0,1)-(2,2) by "X" returns, and the serialized text is then
  "aXi": the prefix of the start line, the replacement, the suffix of the end line; the
  middle line is gone. This holds for every initial cursor and every newCursorPosition.
\<close>

theorem C3_multi_line_merge:
  "map_sum fst code
     (readThenWrite (newInMemoryEditor ext ''abc\<newline>def\<newline>ghi'' p)
        \<lparr>start = \<lparr>line = 0, character = 1\<rparr>, endp = \<lparr>line = 2, character = 2\<rparr>\<rparr>
        (\<lambda>_. [\<lparr>modCode = ''X'',
                modSelection = \<lparr>start = \<lparr>line = 0, character = 1\<rparr>,
                                endp = \<lparr>line = 2, character = 2\<rparr>\<rparr>\<rparr>])
        cur)
   = Inr ''aXi''"
  by (cases cur)
     (simp_all add: readThenWrite_def newInMemoryEditor_def setCodeMatrix_abc withSelection_def
      withCodeMatrix_def readSelection_def sortBy_def applyModification_def splice_def
      sliceFrom_def slice_def code_def read_def DELETED_LINE_def LINE_SEPARATOR_def
      upt_rec nth_Cons')

text \<open>
  C8: after every call of readThenWrite, whether it returns or throws, the selection of
  the editor is a cursor at newCursorPosition when that argument is given, and the
  selection from before the call when it is omitted.
\<close>

theorem C8_cursor_after_readThenWrite:
  "selection (editorAfter (readThenWrite e sel getModifications newCursorPosition)) =
     (case newCursorPosition of
        Some p \<Rightarrow> cursorAtPosition p
      | None \<Rightarrow> selection e)"
  by (simp add: readThenWrite_def editorAfter_def withSelection_def withCodeMatrix_def Let_def
      split: option.splits sum.splits prod.splits)

lemma commit_skip:
  "line (endp (modSelection m)) < line (start (modSelection m)) \<Longrightarrow> applyModification cm m = Inr cm"
  by (simp add: applyModification_def Let_def)

lemma commit_append:
  "commit cm (xs @ ys) = (case commit cm xs of Inl err \<Rightarrow> Inl err | Inr cm' \<Rightarrow> commit cm' ys)"
  by (induction xs arbitrary: cm) (auto split: sum.splits)

text \<open>
  C9: when the selection argument of readThenWrite ends on a line before the one it starts
  on, the text read is the empty string, so the call only depends on what getModifications
  returns for the empty string; and a Modification whose selection ends on a line before
  its start is skipped: applying it returns the matrix unchanged, and committing a list
  with it gives what committing the list without it gives.
\<close>

theorem C9_reversed_lines:
  "(line (endp sel) < line (start sel) \<longrightarrow>
      readSelection (codeMatrix e) sel = Inr [] \<and>
      readThenWrite e sel getModifications cur = readThenWrite e sel (\<lambda>_. getModifications []) cur) \<and>
   (line (endp (modSelection m)) < line (start (modSelection m)) \<longrightarrow>
      applyModification cm m = Inr cm \<and>
      commit cm (before @ m # after) = commit cm (before @ after))"
proof -
  have a: "readSelection (codeMatrix e') sel = Inr []" if "line (endp sel) < line (start sel)" for e'
    using that by (simp add: readSelection_def Let_def read_def)
  have b: "readThenWrite e sel getModifications cur = readThenWrite e sel (\<lambda>_. getModifications []) cur"
    if "line (endp sel) < line (start sel)"
    using that by (simp add: readThenWrite_def Let_def a)
  have c: "commit cm (before @ m # after) = commit cm (before @ after)"
    if "line (endp (modSelection m)) < line (start (modSelection m))"
    using that by (simp add: commit_append commit_skip split: sum.splits)
  show ?thesis using a b c commit_skip by blast
qed

theorem C9_reversed_lines_witness:
  "readSelection [[''a''], [''b'']] \<lparr>start = \<lparr>line = 1, character = 0\<rparr>, endp = \<lparr>line = 0, character = 1\<rparr>\<rparr> = Inr [] \<and>
   applyModification [[''a''], [''b'']]
     \<lparr>modCode = ''X'', modSelection = \<lparr>start = \<lparr>line = 1, character = 0\<rparr>, endp = \<lparr>line = 0, character = 1\<rparr>\<rparr>\<rparr>
     = Inr [[''a''], [''b'']]"
  using C9_reversed_lines [of "\<lparr>start = \<lparr>line = 1, character = 0\<rparr>, endp = \<lparr>line = 0, character = 1\<rparr>\<rparr>"
      "InMemoryEditor [[''a''], [''b'']] (cursorAt 0 0) []" "\<lambda>_. []" None
      "\<lparr>modCode = ''X'', modSelection = \<lparr>start = \<lparr>line = 1, character = 0\<rparr>, endp = \<lparr>line = 0, character = 1\<rparr>\<rparr>\<rparr>"
      "[[''a''], [''b'']]" "[]" "[]"]
  by simp

section \<open>Other files\<close>

lemma otherFiles_applyOp:
  "\<not> writesIn path op \<Longrightarrow> map_of (otherFiles (applyOp ext op e)) path = map_of (otherFiles e) path"
  by (cases op)
     (auto simp: writeCode_def writeIn_def moveCursorTo_def readThenWrite_def editorAfter_def
        withCodeMatrix_def withSelection_def withOtherFiles_def Let_def update_conv'
        split: option.splits sum.splits prod.splits)

lemma otherFiles_fold:
  "\<forall>op \<in> set ops. \<not> writesIn path op \<Longrightarrow>
   map_of (otherFiles (fold (applyOp ext) ops e)) path = map_of (otherFiles e) path"
  by (induction ops arbitrary: e) (simp_all add: otherFiles_applyOp)

text \<open>
  C10: on an editor built by the constructor and then used through any sequence of calls,
  codeOf returns the empty string for every path that none of the calls wrote with writeIn.
\<close>

theorem C10_codeOf_unwritten:
  "\<forall>op \<in> set ops. \<not> writesIn path op \<Longrightarrow>
   codeOf (fold (applyOp ext) ops (newInMemoryEditor ext c p)) path = []"
  by (simp add: codeOf_def otherFiles_fold) (simp add: newInMemoryEditor_def)

theorem C10_codeOf_unwritten_witness:
  "codeOf (fold (applyOp (\<lambda>a b. a)) [WriteIn ''a.ts'' ''x'', MoveCursorTo \<lparr>line = 0, character = 0\<rparr>]
            (newInMemoryEditor (\<lambda>a b. a) ''abc'' \<lparr>line = 0, character = 0\<rparr>)) ''b.ts'' = [] \<and>
   codeOf (fold (applyOp (\<lambda>a b. a)) [WriteIn ''a.ts'' ''x'', MoveCursorTo \<lparr>line = 0, character = 0\<rparr>]
            (newInMemoryEditor (\<lambda>a b. a) ''abc'' \<lparr>line = 0, character = 0\<rparr>)) ''a.ts'' = ''x''"
proof -
  have "\<forall>op \<in> set [WriteIn ''a.ts'' ''x'', MoveCursorTo \<lparr>line = 0, character = 0\<rparr>]. \<not> writesIn ''b.ts'' op"
    by simp
  from C10_codeOf_unwritten [OF this]
  show ?thesis
    by (simp add: codeOf_def writeIn_def withOtherFiles_def moveCursorTo_def withSelection_def
       newInMemoryEditor_def code_def read_def setCodeMatrix_def splitChars_def removeFirst_def
       CURSOR_def SELECTION_START_def SELECTION_END_def DELETED_LINE_def)
qed

section \<open>The marker protocol\<close>

lemma scanLine_setter:
  "markerSelection i l = Some b \<Longrightarrow>
   scanLine ext l (s, i) = (foldl ext b (endMarkers i [l]), i + 1)"
  by (auto simp: scanLine_def markerSelection_def endMarker_def Let_def split: option.splits)

lemma scanLine_plain:
  "markerSelection i l = None \<Longrightarrow>
   scanLine ext l (s, i) = (foldl ext s (endMarkers i [l]), i + 1)"
  by (auto simp: scanLine_def markerSelection_def endMarker_def Let_def split: option.splits)

lemma endMarkers_Cons: "endMarkers i (l # ls) = endMarkers i [l] @ endMarkers (i + 1) ls"
  by (simp split: option.splits)

lemma fold_scanLine_plain:
  "(\<And>j. j < length ls \<Longrightarrow> markerSelection (i + j) (ls ! j) = None) \<Longrightarrow>
   fold (scanLine ext) ls (s, i) = (foldl ext s (endMarkers i ls), i + length ls)"
proof (induction ls arbitrary: s i)
  case Nil
  then show ?case by simp
next
  case (Cons l ls)
  have l: "markerSelection i l = None" using Cons.prems [of 0] by simp
  have rest: "markerSelection (Suc i + j) (ls ! j) = None" if "j < length ls" for j
    using Cons.prems [of "Suc j"] that by simp
  show ?case
    using Cons.IH [OF rest]
    by (simp add: scanLine_plain [OF l] endMarkers_Cons [of i l ls] del: endMarkers.simps)
qed

lemma snd_fold_scanLine: "snd (fold (scanLine ext) ls (s, i)) = i + length ls"
  by (induction ls arbitrary: s i) (simp_all add: scanLine_def Let_def)

lemma fold_scanLine_last_setter:
  assumes "k < length ls" and "markerSelection k (ls ! k) = Some b"
    and "\<And>j. k < j \<Longrightarrow> j < length ls \<Longrightarrow> markerSelection j (ls ! j) = None"
  shows "fold (scanLine ext) ls (d, 0) = (foldl ext b (endMarkers k (drop k ls)), length ls)"
proof -
  have split: "ls = take k ls @ (ls ! k) # drop (Suc k) ls"
    using assms(1) by (simp add: id_take_nth_drop)
  obtain s where pre: "fold (scanLine ext) (take k ls) (d, 0) = (s, k)"
    using snd_fold_scanLine [of ext "take k ls" d 0] assms(1)
    by (cases "fold (scanLine ext) (take k ls) (d, 0)") simp
  have rest: "markerSelection (Suc k + j) (drop (Suc k) ls ! j) = None"
    if "j < length (drop (Suc k) ls)" for j
    using that assms(3) [of "Suc k + j"] by simp
  have dk: "drop k ls = (ls ! k) # drop (Suc k) ls"
    using assms(1) by (simp add: Cons_nth_drop_Suc)
  have plain: "fold (scanLine ext) (drop (Suc k) ls) (s', Suc k) =
      (foldl ext s' (endMarkers (Suc k) (drop (Suc k) ls)), Suc k + length (drop (Suc k) ls))" for s'
    by (rule fold_scanLine_plain) (rule rest)
  have len: "Suc k + length (drop (Suc k) ls) = length ls"
    using assms(1) by simp
  have "fold (scanLine ext) ls (d, 0) =
        fold (scanLine ext) (drop (Suc k) ls) (scanLine ext (ls ! k) (s, k))"
    by (subst split) (simp add: pre)
  also have "\<dots> = (foldl ext (foldl ext b (endMarkers k [ls ! k])) (endMarkers (Suc k) (drop (Suc k) ls)),
                   length ls)"
    unfolding scanLine_setter [OF assms(2)] using plain len by simp
  also have "\<dots> = (foldl ext b (endMarkers k (drop k ls)), length ls)"
    unfolding dk endMarkers_Cons [of k "ls ! k" "drop (Suc k) ls"] by simp
  finally show ?thesis .
qed

text \<open>
  C4 (amended): the last line that bears a cursor marker or a start marker sets the
  selection, to a cursor at the start marker if the line has one and at the first cursor
  marker of the line otherwise; whatever earlier lines and the default position set is
  overwritten. Every end marker on that line or on a later one then extends the selection,
  in scan order, through extendEndToStartOf.
\<close>

theorem C4_last_marker_line_wins:
  assumes "k < length (splitLines c)"
    and "markerSelection k (splitLines c ! k) = Some b"
    and "\<forall>j. k < j \<and> j < length (splitLines c) \<longrightarrow> markerSelection j (splitLines c ! j) = None"
  shows "selection (newInMemoryEditor ext c p) =
           foldl ext b (endMarkers k (drop k (splitLines c)))"
  using fold_scanLine_last_setter [OF assms(1,2), of ext "cursorAtPosition p"] assms(3)
  by (simp add: newInMemoryEditor_def setSelectionFromCursor_def)

lemma splitLines_two_cursors: "splitLines ''[cursor]a\<newline>[cursor]b'' = [''[cursor]a'', ''[cursor]b'']"
  by code_simp

lemma marker_two_cursors:
  "markerSelection (Suc 0) ''[cursor]b'' = Some (cursorAt (Suc 0) 0)" "endMarker ''[cursor]b'' = None"
  "indexOf CURSOR ''[cursor]a'' = Some 0"
  by (simp_all add: markerSelection_def endMarker_def removeFirst_def CURSOR_def
        SELECTION_START_def SELECTION_END_def)

lemma splitLines_fixture:
  "splitLines ''[cursor]a\<newline>[start]b\<newline>c[end]'' = [''[cursor]a'', ''[start]b'', ''c[end]'']"
  by code_simp

lemma marker_fixture:
  "markerSelection (Suc 0) ''[start]b'' = Some (cursorAt (Suc 0) 0)"
  "markerSelection (Suc (Suc 0)) ''c[end]'' = None"
  "endMarker ''[start]b'' = None"
  "endMarker ''c[end]'' = Some (Suc 0)"
  by (simp_all add: markerSelection_def endMarker_def removeFirst_def CURSOR_def
        SELECTION_START_def SELECTION_END_def)

theorem C4_last_marker_line_wins_witness:
  "selection (newInMemoryEditor extendEndToStartOf ''[cursor]a\<newline>[start]b\<newline>c[end]''
                \<lparr>line = 0, character = 0\<rparr>)
     = \<lparr>start = \<lparr>line = 1, character = 0\<rparr>, endp = \<lparr>line = 2, character = 1\<rparr>\<rparr>"
proof -
  let ?c = "''[cursor]a\<newline>[start]b\<newline>c[end]''"
  have 1: "Suc 0 < length (splitLines ?c)"
    by (simp add: splitLines_fixture)
  have 2: "markerSelection (Suc 0) (splitLines ?c ! Suc 0) = Some (cursorAt (Suc 0) 0)"
    by (simp add: splitLines_fixture marker_fixture)
  have 3: "\<forall>j. Suc 0 < j \<and> j < length (splitLines ?c) \<longrightarrow> markerSelection j (splitLines ?c ! j) = None"
  proof (intro allI impI)
    fix j assume "Suc 0 < j \<and> j < length (splitLines ?c)"
    then have "j = Suc (Suc 0)" by (simp add: splitLines_fixture)
    then show "markerSelection j (splitLines ?c ! j) = None"
      by (simp add: splitLines_fixture marker_fixture)
  qed
  show ?thesis
    using C4_last_marker_line_wins [OF 1 2 3, of extendEndToStartOf "\<lparr>line = 0, character = 0\<rparr>"]
    by (simp add: splitLines_fixture marker_fixture extendEndToStartOf_def cursorAt_def
          cursorAtPosition_def isAfter_def isBefore_def isEqualTo_def isSameLineThan_def)
qed

text \<open>
  C4 (as stated): with several cursor markers only the first one observed sets the cursor.
  This fails when the markers are on different lines: in the fixture below the first cursor
  marker is at line 0, character 0, and the constructed editor has its cursor at line 1.
\<close>

theorem C4_first_cursor_counterexample:
  "indexOf CURSOR (splitLines ''[cursor]a\<newline>[cursor]b'' ! 0) = Some 0 \<and>
   selection (newInMemoryEditor extendEndToStartOf ''[cursor]a\<newline>[cursor]b'' \<lparr>line = 0, character = 0\<rparr>)
     = cursorAt 1 0 \<and>
   selection (newInMemoryEditor extendEndToStartOf ''[cursor]a\<newline>[cursor]b'' \<lparr>line = 0, character = 0\<rparr>)
     \<noteq> cursorAt 0 0"
  by (simp add: splitLines_two_cursors marker_two_cursors newInMemoryEditor_def
        setSelectionFromCursor_def scanLine_def Let_def removeFirst_def CURSOR_def
        SELECTION_START_def SELECTION_END_def cursorAt_def cursorAtPosition_def)

section \<open>Dispatch\<close>

lemma find_first_match:
  "\<forall>x \<in> set before. \<not> P x \<Longrightarrow> P k \<Longrightarrow> find P (before @ k # after) = Some k"
  by (induction before) simp_all

lemma find_no_match: "\<forall>x \<in> set xs. \<not> P x \<Longrightarrow> find P xs = None"
  by (induction xs) simp_all

lemma visit_enterThen:
  "visit isT typeOf visitor path =
     enterThen visitor path (getVisitorNode isT visitor (typeOf path))"
  by (simp add: visit_def enterThen_def invokeNode_def split: sum.splits visitorNode.splits)

text \<open>
  C6: dispatch on a visited node calls the generic enter function of the visitor, if it has
  one, and then resolves and invokes the visitor node for the concrete type of the node.
  When the visitor has an entry under the concrete type (one that reads as a truthy
  value), that entry is resolved, whatever other keys there are, and it is the one invoked.
  Otherwise the keys are scanned in declaration order, and the entry of the first key whose
  category contains the concrete type is resolved and invoked. When no key matches, the
  result is null, visit does no more than its call of the generic enter function, and
  without such a function it invokes nothing and returns without an error.
\<close>

theorem C6_dispatch_resolution:
  "(getProp visitor (typeOf path) \<noteq> Falsy \<longrightarrow>
      getVisitorNode isT visitor (typeOf path) = getProp visitor (typeOf path) \<and>
      visit isT typeOf visitor path = enterThen visitor path (getProp visitor (typeOf path))) \<and>
   (getProp visitor (typeOf path) = Falsy \<and> map fst visitor = before @ k # after \<and>
    (\<forall>k' \<in> set before. \<not> isT (typeOf path) k') \<and> isT (typeOf path) k \<and> k \<noteq> [] \<longrightarrow>
      getVisitorNode isT visitor (typeOf path) = getProp visitor k \<and>
      visit isT typeOf visitor path = enterThen visitor path (getProp visitor k)) \<and>
   (getProp visitor (typeOf path) = Falsy \<and>
    (\<forall>k \<in> set (map fst visitor). \<not> isT (typeOf path) k) \<longrightarrow>
      getVisitorNode isT visitor (typeOf path) = Falsy \<and>
      visit isT typeOf visitor path = visitEnter visitor path \<and>
      ((\<forall>f. getProp visitor ''enter'' \<noteq> Fn f) \<longrightarrow> visit isT typeOf visitor path = Inr []))"
proof (intro conjI impI)
  assume "getProp visitor (typeOf path) \<noteq> Falsy"
  then show g: "getVisitorNode isT visitor (typeOf path) = getProp visitor (typeOf path)"
    by (simp add: getVisitorNode_def)
  show "visit isT typeOf visitor path = enterThen visitor path (getProp visitor (typeOf path))"
    by (simp only: visit_enterThen g)
next
  assume a: "getProp visitor (typeOf path) = Falsy \<and> map fst visitor = before @ k # after \<and>
    (\<forall>k' \<in> set before. \<not> isT (typeOf path) k') \<and> isT (typeOf path) k \<and> k \<noteq> []"
  then have "find (\<lambda>type. isT (typeOf path) type) (map fst visitor) = Some k"
    using find_first_match [of before "\<lambda>type. isT (typeOf path) type" k after] by simp
  with a show g: "getVisitorNode isT visitor (typeOf path) = getProp visitor k"
    by (simp add: getVisitorNode_def)
  show "visit isT typeOf visitor path = enterThen visitor path (getProp visitor k)"
    by (simp only: visit_enterThen g)
next
  assume a: "getProp visitor (typeOf path) = Falsy \<and>
    (\<forall>k \<in> set (map fst visitor). \<not> isT (typeOf path) k)"
  then have f: "find (\<lambda>type. isT (typeOf path) type) (map fst visitor) = None"
    by (intro find_no_match) simp
  with a show g: "getVisitorNode isT visitor (typeOf path) = Falsy"
    by (simp add: getVisitorNode_def)
  show v: "visit isT typeOf visitor path = visitEnter visitor path"
    by (simp add: visit_def g split: sum.splits)
  assume "\<forall>f. getProp visitor ''enter'' \<noteq> Fn f"
  then show "visit isT typeOf visitor path = Inr []"
    unfolding v by (simp add: visitEnter_def split: visitorNode.splits)
qed

section \<open>Failures of discovery\<close>


section \<open>The collection of applicable refactorings\<close>

lemma forEach_checkRefactoring:
  "forEach (checkRefactoring h sel c path) rs s = Inr s' \<Longrightarrow>
   s' = fold (\<lambda>(r, vp). onMatch r vp) (claimsAt h sel c rs path) s"
proof (induction rs arbitrary: s)
  case Nil
  then show ?case by (simp add: claimsAt_def)
next
  case (Cons r rs)
  have step: "checkRefactoring h sel c path r s =
      (case visit (isType h) (nodeTypeOf h) (createVisitor r sel c) path of
         Inl err \<Rightarrow> Inl err
       | Inr vps \<Rightarrow> Inr (fold (onMatch r) vps s))"
    by (simp add: checkRefactoring_def)
  from Cons.prems obtain vps where
    v: "visit (isType h) (nodeTypeOf h) (createVisitor r sel c) path = Inr vps"
    and rest: "forEach (checkRefactoring h sel c path) rs (fold (onMatch r) vps s) = Inr s'"
    by (auto simp: step split: sum.splits)
  have "fold (\<lambda>(r, vp). onMatch r vp) (map (\<lambda>vp. (r, vp)) vps) s = fold (onMatch r) vps s"
    by (induction vps arbitrary: s) simp_all
  with Cons.IH [OF rest] v show ?case
    by (simp add: claimsAt_def)
qed

lemma forEach_paths:
  "forEach (\<lambda>path. forEach (checkRefactoring h sel c path) rs) paths s = Inr s' \<Longrightarrow>
   s' = fold (\<lambda>(r, vp). onMatch r vp) (claims h sel c rs paths) s"
proof (induction paths arbitrary: s)
  case Nil
  then show ?case by (simp add: claims_def)
next
  case (Cons path paths)
  from Cons.prems obtain s1 where
    one: "forEach (checkRefactoring h sel c path) rs s = Inr s1"
    and rest: "forEach (\<lambda>path. forEach (checkRefactoring h sel c path) rs) paths s1 = Inr s'"
    by (auto split: sum.splits)
  from forEach_checkRefactoring [OF one] Cons.IH [OF rest] show ?case
    by (simp add: claims_def)
qed

lemma dedupFrom_cong: "set seen = set seen' \<Longrightarrow> dedupFrom seen xs = dedupFrom seen' xs"
proof (induction xs arbitrary: seen seen')
  case Nil
  then show ?case by simp
next
  case (Cons x xs)
  have "dedupFrom (x # seen) xs = dedupFrom (x # seen') xs"
    by (rule Cons.IH) (simp add: Cons.prems)
  moreover have "dedupFrom seen xs = dedupFrom seen' xs"
    by (rule Cons.IH) (rule Cons.prems)
  ultimately show ?case using Cons.prems by simp
qed

lemma dedupFrom_fresh: "set (dedupFrom seen xs) = set xs - set seen"
  by (induction xs arbitrary: seen) auto

lemma distinct_dedupFrom: "distinct (dedupFrom seen xs)"
  by (induction xs arbitrary: seen) (auto simp: dedupFrom_fresh)

lemma keys_onMatch:
  "map fst (onMatch r vp al) =
     (if key r \<in> set (map fst al) then map fst al else map fst al @ [key r])"
  by (simp add: onMatch_def update_keys)

lemma keys_fold_onMatch:
  "map fst (fold (\<lambda>(r, vp). onMatch r vp) cl al) =
     map fst al @ dedupFrom (map fst al) (map (\<lambda>(r, vp). key r) cl)"
proof (induction cl arbitrary: al)
  case Nil
  then show ?case by simp
next
  case (Cons x cl)
  obtain r vp where x: "x = (r, vp)" by (cases x)
  show ?case
  proof (cases "key r \<in> set (map fst al)")
    case True
    then have "dedupFrom (map fst (onMatch r vp al)) (map (\<lambda>(r, vp). key r) cl) =
               dedupFrom (map fst al) (map (\<lambda>(r, vp). key r) cl)"
      by (intro dedupFrom_cong) (simp add: keys_onMatch)
    with True show ?thesis
      by (simp add: x Cons.IH keys_onMatch)
  next
    case False
    then have "dedupFrom (map fst (onMatch r vp al)) (map (\<lambda>(r, vp). key r) cl) =
               dedupFrom (key r # map fst al) (map (\<lambda>(r, vp). key r) cl)"
      by (intro dedupFrom_cong) (auto simp: keys_onMatch)
    with False show ?thesis
      by (simp add: x Cons.IH keys_onMatch)
  qed
qed

text \<open>Every entry of the map is keyed by the key of its value and was recorded for a claim.\<close>

definition entryOf ::
  "(('p, 'e) Refactoring \<times> 'p) list \<Rightarrow> string \<times> ('p, 'e) Refactoring \<Rightarrow> bool" where
  "entryOf cl kv = (\<exists>(r, vp) \<in> set cl. kv = (key r, recorded r vp))"

lemma key_recorded: "key (recorded r vp) = key r"
  by (simp add: recorded_def split: option.splits)

lemma entries_onMatch:
  "kv \<in> set (onMatch r vp al) \<Longrightarrow> kv = (key r, recorded r vp) \<or> kv \<in> set al"
  unfolding onMatch_def recorded_def
  by (induction al) (auto split: if_splits)

lemma entries_fold_onMatch:
  "kv \<in> set (fold (\<lambda>(r, vp). onMatch r vp) cl al) \<Longrightarrow> entryOf cl kv \<or> kv \<in> set al"
proof (induction cl arbitrary: al)
  case Nil
  then show ?case by simp
next
  case (Cons x cl)
  obtain r vp where x: "x = (r, vp)" by (cases x)
  from Cons.prems have "kv \<in> set (fold (\<lambda>(r, vp). onMatch r vp) cl (onMatch r vp al))"
    by (simp add: x)
  from Cons.IH [OF this] show ?case
  proof
    assume "entryOf cl kv"
    then show ?thesis by (auto simp: entryOf_def)
  next
    assume "kv \<in> set (onMatch r vp al)"
    from entries_onMatch [OF this] show ?thesis
      by (auto simp: entryOf_def x)
  qed
qed

lemma distinct_key_filter:
  "distinct (map f xs) \<Longrightarrow> x \<in> set xs \<Longrightarrow> filter (\<lambda>y. f y = f x) xs = [x]"
proof (induction xs)
  case Nil
  then show ?case by simp
next
  case (Cons y ys)
  show ?case
  proof (cases "x = y")
    case True
    have "filter (\<lambda>z. f z = f y) ys = []"
      using Cons.prems(1) by (auto simp: filter_empty_conv intro: rev_image_eqI)
    with True show ?thesis by simp
  next
    case False
    with Cons.prems have "x \<in> set ys" "f y \<noteq> f x" by auto
    with Cons show ?thesis by simp
  qed
qed

lemma claims_candidates: "(r, vp) \<in> set (claims h sel c rs paths) \<Longrightarrow> r \<in> set rs"
  by (auto simp: claims_def claimsAt_def split: sum.splits)

text \<open>
  C5: when discovery returns, the identifiers of the returned refactorings are the
  identifiers claimed during the traversal, each once, in the order in which they were
  first claimed; every returned refactoring is a candidate shown in the quick fix menu, as
  recorded at one of its claims (its message perhaps recomputed there); and when the
  candidates have pairwise distinct identifiers, every refactoring that was claimed, at
  however many nodes, is in the returned collection exactly once.
\<close>

theorem C5_applicable_once_in_first_claimed_order:
  assumes "findApplicableRefactorings h refactorings (c, sel) = Inr found"
    and "parse h c = Inr ast"
    and "cl = claims h sel c (filter (\<lambda>r. shouldShowInQuickFix h (key r)) refactorings)
                 (traverseAST h ast)"
  shows "map key found = firstOccurrences (map (\<lambda>(r, vp). key r) cl) \<and>
         distinct (map key found) \<and>
         (\<forall>r' \<in> set found. \<exists>(r, vp) \<in> set cl.
             r' = recorded r vp \<and> r \<in> set refactorings \<and> shouldShowInQuickFix h (key r)) \<and>
         (distinct (map key refactorings) \<longrightarrow>
            (\<forall>(r, vp) \<in> set cl. \<exists>vp'. (r, vp') \<in> set cl \<and>
                filter (\<lambda>r'. key r' = key r) found = [recorded r vp']))"
proof -
  let ?rs = "filter (\<lambda>r. shouldShowInQuickFix h (key r)) refactorings"
  from assms(1,2) obtain al where
    run: "forEach (\<lambda>path. forEach (checkRefactoring h sel c path) ?rs) (traverseAST h ast) [] = Inr al"
    and found: "found = map snd al"
    by (auto simp: findApplicableRefactorings_def Let_def split: sum.splits)
  have al: "al = fold (\<lambda>(r, vp). onMatch r vp) cl []"
    using forEach_paths [OF run] assms(3) by simp
  have entries: "entryOf cl kv" if "kv \<in> set al" for kv
    using entries_fold_onMatch [of kv cl "[]"] that al by simp
  have "key (snd kv) = fst kv" if "kv \<in> set al" for kv
    using entries [OF that] by (auto simp: entryOf_def key_recorded)
  then have "map key found = map fst al"
    unfolding found by simp
  moreover have "map fst al = firstOccurrences (map (\<lambda>(r, vp). key r) cl)"
    unfolding al firstOccurrences_def by (simp add: keys_fold_onMatch)
  ultimately have 1: "map key found = firstOccurrences (map (\<lambda>(r, vp). key r) cl)"
    by simp
  have 2: "distinct (map key found)"
    unfolding 1 firstOccurrences_def by (rule distinct_dedupFrom)
  have 3: "\<exists>(r, vp) \<in> set cl. r' = recorded r vp \<and> r \<in> set refactorings \<and> shouldShowInQuickFix h (key r)"
    if "r' \<in> set found" for r'
  proof -
    from that obtain k where "(k, r') \<in> set al" by (auto simp: found)
    from entries [OF this] obtain r vp where rv: "(r, vp) \<in> set cl" "r' = recorded r vp"
      by (auto simp: entryOf_def)
    from rv(1) have "r \<in> set ?rs"
      unfolding assms(3) by (rule claims_candidates)
    with rv show ?thesis by auto
  qed
  have 4: "\<exists>vp'. (r, vp') \<in> set cl \<and> filter (\<lambda>r'. key r' = key r) found = [recorded r vp']"
    if d: "distinct (map key refactorings)" and rv: "(r, vp) \<in> set cl" for r vp
  proof -
    have "key r \<in> set (map key found)"
      unfolding 1 firstOccurrences_def dedupFrom_fresh using rv by force
    then obtain r' where r': "r' \<in> set found" "key r' = key r" by auto
    from 3 [OF r'(1)] obtain r0 vp0 where
      r0: "(r0, vp0) \<in> set cl" "r' = recorded r0 vp0" "r0 \<in> set refactorings"
      by auto
    have "r \<in> set (filter (\<lambda>r. shouldShowInQuickFix h (key r)) refactorings)"
      using rv unfolding assms(3) by (rule claims_candidates)
    then have "r \<in> set refactorings" by simp
    moreover have "key r0 = key r"
      using r0(2) r'(2) by (simp add: key_recorded)
    ultimately have "r0 = r"
      using d r0(3) by (meson distinct_map inj_onD)
    have "filter (\<lambda>x. key x = key r') found = [r']"
      using 2 r'(1) by (rule distinct_key_filter)
    with r0 r'(2) \<open>r0 = r\<close> show ?thesis by auto
  qed
  from 1 2 3 4 show ?thesis by blast
qed

lemma example_visit:
  "visit (isType exampleHost) (nodeTypeOf exampleHost) (createVisitor exampleAddBraces sel c) p =
     (if p = 0 then Inr [] else Inr [p])"
  "visit (isType exampleHost) (nodeTypeOf exampleHost) (createVisitor exampleRename sel c) p =
     (if p = 0 then Inr [p] else Inr [])"
  by (simp_all add: visit_def visitEnter_def getVisitorNode_def getProp_def exampleHost_def
        exampleAddBraces_def exampleRename_def)

lemma example_keys: "key exampleAddBraces = ''addBraces''" "key exampleRename = ''rename''"
  "recorded exampleAddBraces p = exampleAddBraces" "recorded exampleRename p = exampleRename"
  by (simp_all add: exampleAddBraces_def exampleRename_def recorded_def)

lemma example_run:
  "findApplicableRefactorings exampleHost [exampleAddBraces, exampleRename] (''x => x'', cursorAt 0 0)
     = Inr [exampleRename, exampleAddBraces]"
proof -
  have p: "parse exampleHost ''x => x'' = Inr [0, 1, 2]" "traverseAST exampleHost ast = ast"
    "shouldShowInQuickFix exampleHost k" for k ast
    by (simp_all add: exampleHost_def)
  have om: "onMatch exampleAddBraces p al = AList.update ''addBraces'' exampleAddBraces al"
    "onMatch exampleRename p al = AList.update ''rename'' exampleRename al" for p al
    by (simp_all add: onMatch_def exampleAddBraces_def exampleRename_def)
  show ?thesis
    by (simp add: findApplicableRefactorings_def p checkRefactoring_def example_visit om)
qed

theorem C5_applicable_once_in_first_claimed_order_witness:
  "map_sum id (map key)
     (findApplicableRefactorings exampleHost [exampleAddBraces, exampleRename]
        (''x => x'', cursorAt 0 0))
   = Inr [''rename'', ''addBraces''] \<and>
   filter (\<lambda>r'. key r' = ''addBraces'') [exampleRename, exampleAddBraces] = [exampleAddBraces]"
proof -
  have p: "parse exampleHost ''x => x'' = Inr [0, 1, 2]"
    by (simp add: exampleHost_def)
  have d: "distinct (map key [exampleAddBraces, exampleRename])"
    by (simp add: example_keys)
  from C5_applicable_once_in_first_claimed_order [OF example_run p refl]
  have "map key [exampleRename, exampleAddBraces] = [''rename'', ''addBraces'']"
    by (simp add: example_keys)
  then show ?thesis
    by (simp add: example_run example_keys)
qed

theorem C6_dispatch_resolution_witness:
  "visit (isType exampleHost) (nodeTypeOf exampleHost)
      [(''Function'', Fn (\<lambda>p. Inr [p, p])), (''ArrowFunctionExpression'', Fn (\<lambda>p. Inr [p]))]
      (1::nat) = (Inr [1] :: string + nat list) \<and>
   visit (isType exampleHost) (nodeTypeOf exampleHost)
      [(''Program'', Fn (\<lambda>p. Inl ''wrong'')),
       (''Function'', Obj [(''enter'', Fn (\<lambda>p. Inr [p])), (''exit'', Fn (\<lambda>p. Inr [p + 1]))]),
       (''ArrowFunctionExpression'', Falsy)]
      (1::nat) = Inr [1, 2] \<and>
   visit (isType exampleHost) (nodeTypeOf exampleHost)
      [(''Identifier'', Fn (\<lambda>p. Inl ''thrown''))] (1::nat) = Inr []"
proof -
  let ?v1 = "[(''Function'', Fn (\<lambda>p. Inr [p, p])), (''ArrowFunctionExpression'', Fn (\<lambda>p. Inr [p]))]
               :: (nat, string) Visitor"
  let ?obj = "Obj [(''enter'', Fn (\<lambda>p. Inr [p])), (''exit'', Fn (\<lambda>p. Inr [p + 1]))]
               :: (nat, string) visitorNode"
  let ?v2 = "[(''Program'', Fn (\<lambda>p. Inl ''wrong'')), (''Function'', ?obj),
              (''ArrowFunctionExpression'', Falsy)] :: (nat, string) Visitor"
  let ?v3 = "[(''Identifier'', Fn (\<lambda>p. Inl ''thrown''))] :: (nat, string) Visitor"
  have n: "getProp ?v1 (nodeTypeOf exampleHost 1) = Fn (\<lambda>p. Inr [p])"
    by (simp add: getProp_def exampleHost_def)
  have 1: "getProp ?v1 (nodeTypeOf exampleHost 1) \<noteq> Falsy"
    unfolding n by simp
  have 2: "getProp ?v2 (nodeTypeOf exampleHost 1) = Falsy \<and>
           map fst ?v2 = [''Program''] @ ''Function'' # [''ArrowFunctionExpression''] \<and>
           (\<forall>k' \<in> set [''Program'']. \<not> isType exampleHost (nodeTypeOf exampleHost 1) k') \<and>
           isType exampleHost (nodeTypeOf exampleHost 1) ''Function'' \<and> ''Function'' \<noteq> []"
    by (simp add: getProp_def exampleHost_def)
  have 3: "getProp ?v3 (nodeTypeOf exampleHost 1) = Falsy \<and>
           (\<forall>k \<in> set (map fst ?v3). \<not> isType exampleHost (nodeTypeOf exampleHost 1) k)"
    by (simp add: getProp_def exampleHost_def)
  have 4: "\<forall>f. getProp ?v3 ''enter'' \<noteq> Fn f"
    by (simp add: getProp_def)
  from C6_dispatch_resolution [where visitor = ?v1 and typeOf = "nodeTypeOf exampleHost"
         and path = 1 and isT = "isType exampleHost"] 1
  have "visit (isType exampleHost) (nodeTypeOf exampleHost) ?v1 1 =
        enterThen ?v1 1 (getProp ?v1 (nodeTypeOf exampleHost 1))"
    by blast
  then have a: "visit (isType exampleHost) (nodeTypeOf exampleHost) ?v1 1 = Inr [1]"
    unfolding n by (simp add: enterThen_def visitEnter_def invokeNode_def getProp_def)
  from C6_dispatch_resolution [where visitor = ?v2 and typeOf = "nodeTypeOf exampleHost"
         and path = 1 and before = "[''Program'']" and k = "''Function''"
         and after = "[''ArrowFunctionExpression'']" and isT = "isType exampleHost"] 2
  have "visit (isType exampleHost) (nodeTypeOf exampleHost) ?v2 1 =
        enterThen ?v2 1 (getProp ?v2 ''Function'')"
    by blast
  then have b: "visit (isType exampleHost) (nodeTypeOf exampleHost) ?v2 1 = Inr [1, 2]"
    by (simp add: enterThen_def visitEnter_def invokeNode_def getProp_def)
  from C6_dispatch_resolution [where visitor = ?v3 and typeOf = "nodeTypeOf exampleHost"
         and path = 1 and isT = "isType exampleHost"] 3 4
  have c: "visit (isType exampleHost) (nodeTypeOf exampleHost) ?v3 1 = Inr []"
    by blast
  from a b c show ?thesis by simp
qed



section \<open>Commit order\<close>









section \<open>Serialization in parts\<close>










section \<open>One Modification on the matrix\<close>



section \<open>The text in front of a position\<close>








section \<open>Committing from right to left\<close>







section \<open>From Modifications that are apart to document order\<close>








text \<open>
  The read of the selection argument returns exactly when the selection ends on a line of
  the matrix or on a line before its start line; it throws otherwise.
\<close>

lemma readSelection_returns_iff:
  "(\<exists>readCode. readSelection cm sel = Inr readCode) \<longleftrightarrow>
     (line (endp sel) < line (start sel) \<or> line (endp sel) < length cm)"
  by (auto simp: readSelection_def Let_def)


lemma exampleEditor_matrix:
  "codeMatrix exampleEditor = [[''a'', ''b'', ''c''], [''d'', ''e'', ''f''], [''g'', ''h'', ''i'']]"
  by (simp add: exampleEditor_def newInMemoryEditor_def setCodeMatrix_abc)

lemma exampleEditor_code: "code exampleEditor = ''abc\<newline>def\<newline>ghi''"
  by (simp add: code_def exampleEditor_matrix read_def DELETED_LINE_def LINE_SEPARATOR_def)





text \<open>
  Two Modifications that start at the same position do not overlap as ranges, an insertion
  at (0,1) and the replacement of (0,1)-(0,2), but the comparator puts neither first: they
  are committed in the order in which they were returned, and the replacement then removes
  the cell the insertion made. Returned in the other order they give "aIXc".
\<close>

lemma same_start_modifications_collide:
  "map_sum fst code
     (readThenWrite (newInMemoryEditor extendEndToStartOf ''abc'' \<lparr>line = 0, character = 0\<rparr>)
        (cursorAt 0 0) sameStartEdits None) = Inr ''aXbc'' \<and>
   map_sum fst code
     (readThenWrite (newInMemoryEditor extendEndToStartOf ''abc'' \<lparr>line = 0, character = 0\<rparr>)
        (cursorAt 0 0) (\<lambda>readCode. rev (sameStartEdits readCode)) None) = Inr ''aIXc''"
proof -
  have m: "setCodeMatrix ''abc'' = [[''a'', ''b'', ''c'']]"
    by (simp add: setCodeMatrix_def splitChars_def removeFirst_def CURSOR_def
          SELECTION_START_def SELECTION_END_def)
  have r: "readSelection [[''a'', ''b'', ''c'']] (cursorAt 0 0) = Inr []"
    by (simp add: readSelection_def cursorAt_def cursorAtPosition_def slice_def read_def DELETED_LINE_def)
  show ?thesis
    by (simp add: readThenWrite_def newInMemoryEditor_def m r sortBy_def sameStartEdits_def
          compareModifications_def startsBefore_def isBefore_def isEqualTo_def isSameLineThan_def
          applyModification_def splice_def withCodeMatrix_def code_def read_def DELETED_LINE_def)
qed

end
